theory Spec2Isabelle
  imports Main "HOL-Library.Word"
begin

section \<open>BIP32 extended keys: a shallow embedding of \<open>bip32.py\<close> and \<open>bip32_helper.py\<close>\<close>

text \<open>
  Python \<open>bytes\<close> are lists of 8-bit words, Python integers are \<open>int\<close>, and every
  \<open>raise\<close>, failed \<open>assert\<close> and failing library call is a value \<open>Inl e\<close> of the
  result type \<open>error + 'a\<close>.
\<close>

type_synonym byte = "8 word"
type_synonym bytes = "byte list"

datatype error =
    ValueError string
  | AssertionError
  | OverflowError
  | TypeError
  | IndexError
  | EccError

type_synonym 'a result = "error + 'a"

definition bind_result :: "'a result \<Rightarrow> ('a \<Rightarrow> 'b result) \<Rightarrow> 'b result" where
  "bind_result r f = (case r of Inl e \<Rightarrow> Inl e | Inr v \<Rightarrow> f v)"

subsection \<open>The external collaborators\<close>

text \<open>
  \<open>hashlib\<close>, \<open>hmac\<close> and the module \<open>ecc\<close> (\<open>S256Point\<close>, \<open>PrivateKey\<close>, \<open>N\<close>, \<open>G\<close>)
  are imported by the source and are not part of it. They are parameters of the model:
  one record holding the three hash functions, the group order \<open>N\<close>, the map
  \<open>coefficient * G\<close>, point addition, \<open>S256Point.parse\<close> and \<open>sec(compressed=True)\<close>.
  The two point codecs can raise, so they return an option.
\<close>

record 'pt ext =
  hashlib_sha256 :: "bytes \<Rightarrow> bytes"
  hashlib_ripemd160 :: "bytes \<Rightarrow> bytes"
  hmac_sha512 :: "bytes \<Rightarrow> bytes \<Rightarrow> bytes"
  ecc_N :: int
  ecc_rmul_G :: "int \<Rightarrow> 'pt"
  ecc_add :: "'pt \<Rightarrow> 'pt \<Rightarrow> 'pt"
  ecc_parse :: "bytes \<Rightarrow> 'pt option"
  ecc_sec :: "'pt \<Rightarrow> bytes option"

subsection \<open>\<open>int.from_bytes(_, "big")\<close> and \<open>int.to_bytes(_, "big")\<close>\<close>

definition from_bytes :: "bytes \<Rightarrow> int" where
  "from_bytes bs = foldl (\<lambda>acc b. acc * 256 + uint b) 0 bs"

fun be_bytes :: "nat \<Rightarrow> int \<Rightarrow> bytes" where
  "be_bytes 0 n = []"
| "be_bytes (Suc k) n = be_bytes k (n div 256) @ [word_of_int (n mod 256)]"

text \<open>\<open>to_bytes\<close> raises \<open>OverflowError\<close> on a negative number and on one that does not fit.\<close>

definition to_bytes :: "int \<Rightarrow> nat \<Rightarrow> bytes result" where
  "to_bytes num len =
     (if num < 0 then Inl OverflowError
      else if 256 ^ len \<le> num then Inl OverflowError
      else Inr (be_bytes len num))"

subsection \<open>\<open>bip32_helper.py\<close>\<close>

definition BASE58_ALPHABET :: string where
  "BASE58_ALPHABET = ''123456789ABCDEFGHJKLMNPQRSTUVWXYZabcdefghijkmnopqrstuvwxyz''"

text \<open>\<open>str.index\<close>: the first position of the character, \<open>ValueError\<close> when there is none.\<close>

fun str_index :: "string \<Rightarrow> char \<Rightarrow> nat result" where
  "str_index [] c = Inl (ValueError ''substring not found'')"
| "str_index (x # xs) c =
     (if x = c then Inr 0
      else case str_index xs c of Inl e \<Rightarrow> Inl e | Inr k \<Rightarrow> Inr (Suc k))"

definition get_pubkey_sec :: "'pt ext \<Rightarrow> bytes \<Rightarrow> bytes result" where
  "get_pubkey_sec E private_key_bytes =
     (let secret = from_bytes private_key_bytes;
          public_key = ecc_rmul_G E secret
      in case ecc_sec E public_key of None \<Rightarrow> Inl EccError | Some s \<Rightarrow> Inr s)"

text \<open>The \<open>for\<close> loop of \<open>decode_base58\<close>, with the accumulator \<open>num\<close>.\<close>

fun decode_base58_loop :: "int \<Rightarrow> string \<Rightarrow> int result" where
  "decode_base58_loop num [] = Inr num"
| "decode_base58_loop num (c # cs) =
     (case str_index BASE58_ALPHABET c of
        Inl e \<Rightarrow> Inl e
      | Inr k \<Rightarrow> decode_base58_loop (num * 58 + int k) cs)"

definition decode_base58 :: "string \<Rightarrow> bytes result" where
  "decode_base58 base58_string =
     (case decode_base58_loop 0 base58_string of
        Inl e \<Rightarrow> Inl e
      | Inr num \<Rightarrow> to_bytes num 82)"

text \<open>The \<open>while num > 0\<close> loop of \<open>encode_base58\<close>, with the accumulator \<open>result\<close>.\<close>

function encode_base58_loop :: "int \<Rightarrow> string \<Rightarrow> string" where
  "encode_base58_loop num result =
     (if num > 0
      then encode_base58_loop (num div 58) (BASE58_ALPHABET ! nat (num mod 58) # result)
      else result)"
  by pat_completeness auto
termination
  by (relation "measure (\<lambda>(num, result). nat num)") auto

declare encode_base58_loop.simps [simp del]

definition encode_base58 :: "bytes \<Rightarrow> string" where
  "encode_base58 data =
     (let count = length (takeWhile (\<lambda>b. b = 0) data);
          num = from_bytes data;
          prefix = replicate count CHR ''1''
      in prefix @ encode_base58_loop num [])"

definition hash256 :: "'pt ext \<Rightarrow> bytes \<Rightarrow> bytes" where
  "hash256 E data = hashlib_sha256 E (hashlib_sha256 E data)"

text \<open>\<open>hashlib.sha256(None)\<close> raises \<open>TypeError\<close>, so \<open>hash160\<close> does on an absent key.\<close>

definition hash160 :: "'pt ext \<Rightarrow> bytes option \<Rightarrow> bytes result" where
  "hash160 E data =
     (case data of
        None \<Rightarrow> Inl TypeError
      | Some d \<Rightarrow> Inr (hashlib_ripemd160 E (hashlib_sha256 E d)))"

definition encode_base58_checksum :: "'pt ext \<Rightarrow> bytes \<Rightarrow> string" where
  "encode_base58_checksum E data = encode_base58 (data @ take 4 (hash256 E data))"

subsection \<open>\<open>bip32.py\<close>: the class \<open>Xkey\<close>\<close>

record xkey =
  key :: bytes
  chaincode :: bytes
  root :: bool
  private_key :: bool
  depth :: int
  index :: int
  parent_pubkey :: "bytes option"

text \<open>\<open>__init__\<close>: the two assertions guard the non-root case only.\<close>

definition Xkey_init ::
  "bytes \<Rightarrow> bytes \<Rightarrow> bool \<Rightarrow> bool \<Rightarrow> int \<Rightarrow> int \<Rightarrow> bytes option \<Rightarrow> xkey result" where
  "Xkey_init k c priv r d i pp =
     (if \<not> r \<and> \<not> (d \<noteq> 0) then Inl AssertionError
      else if \<not> r \<and> \<not> (pp \<noteq> None) then Inl AssertionError
      else Inr \<lparr>key = k, chaincode = c, root = r, private_key = priv,
                depth = d, index = i, parent_pubkey = pp\<rparr>)"

definition parse_from_seed :: "'pt ext \<Rightarrow> bytes \<Rightarrow> xkey result" where
  "parse_from_seed E seed =
     (let full_node = hmac_sha512 E (map (word_of_nat \<circ> of_char) ''Bitcoin seed'') seed;
          left_node = take 32 full_node;
          right_node = drop 32 full_node
      in Xkey_init left_node right_node True True 0 0 None)"

text \<open>\<open>BytesIO.read(n)\<close>: up to \<open>n\<close> bytes and the rest of the stream.\<close>

definition stream_read :: "nat \<Rightarrow> bytes \<Rightarrow> bytes \<times> bytes" where
  "stream_read n s = (take n s, drop n s)"

definition version_private :: bytes where
  "version_private = [0x04, 0x88, 0xad, 0xe4]"

definition version_public :: bytes where
  "version_public = [0x04, 0x88, 0xb2, 0x1e]"

definition parse_from_bip32 :: "'pt ext \<Rightarrow> string \<Rightarrow> bytes option \<Rightarrow> xkey result" where
  "parse_from_bip32 E bip32key parent_pubkey_arg =
     (case decode_base58 bip32key of
        Inl e \<Rightarrow> Inl e
      | Inr decoded \<Rightarrow>
          let checksum = drop (length decoded - 4) decoded;
              payload = take (length decoded - 4) decoded
          in if checksum \<noteq> take 4 (hash256 E payload)
             then Inl (ValueError ''Checksum mismatch!'')
             else
               let (version, s1) = stream_read 4 payload;
                   version_check =
                     (if version = version_private then Inr True
                      else if version = version_public then Inr False
                      else Inl (ValueError ''Unsupported BIP32 Key Format''))
               in case version_check of
                    Inl e \<Rightarrow> Inl e
                  | Inr priv \<Rightarrow>
                    let (depth_bytes, s2) = stream_read 1 s1
                    in case depth_bytes of
                         [] \<Rightarrow> Inl IndexError
                       | depth_byte # _ \<Rightarrow>
                           let d = uint depth_byte;
                               (fingerprint, s3) = stream_read 4 s2;
                               (index_bytes, s4) = stream_read 4 s3;
                               i = from_bytes index_bytes;
                               root_check =
                                 (if d = 0 \<and> fingerprint = replicate 4 0 \<and> i = 0
                                  then Inr True
                                  else case hash160 E parent_pubkey_arg of
                                         Inl e \<Rightarrow> Inl e
                                       | Inr h \<Rightarrow>
                                           if take 4 h \<noteq> fingerprint
                                           then Inl (ValueError ''Fingerprint mismatch!'')
                                           else Inr False)
                           in case root_check of
                                Inl e \<Rightarrow> Inl e
                              | Inr r \<Rightarrow>
                                  let (c, s5) = stream_read 32 s4;
                                      (k, s6) = stream_read 33 s5
                                  in case k of
                                       [] \<Rightarrow> Inl IndexError
                                     | k0 # ks \<Rightarrow>
                                         Xkey_init (if k0 = 0 then ks else k) c priv r d i
                                           parent_pubkey_arg)"

definition derive_child_seed :: "'pt ext \<Rightarrow> xkey \<Rightarrow> int \<Rightarrow> xkey result" where
  "derive_child_seed E self index_num =
     (let prologue =
            (if private_key self
             then case get_pubkey_sec E (key self) of
                    Inl e \<Rightarrow> Inl e
                  | Inr pubkey \<Rightarrow>
                      if index_num \<ge> 2 ^ 31
                      then case to_bytes index_num 4 of
                             Inl e \<Rightarrow> Inl e
                           | Inr ib \<Rightarrow> Inr (pubkey, [0] @ key self @ ib)
                      else case to_bytes index_num 4 of
                             Inl e \<Rightarrow> Inl e
                           | Inr ib \<Rightarrow> Inr (pubkey, pubkey @ ib)
             else if index_num \<ge> 2 ^ 31
                  then Inl (ValueError ''Cannot use hardened index!'')
                  else case to_bytes index_num 4 of
                         Inl e \<Rightarrow> Inl e
                       | Inr ib \<Rightarrow> Inr (key self, key self @ ib))
      in case prologue of
           Inl e \<Rightarrow> Inl e
         | Inr (pubkey, data) \<Rightarrow>
             let full_node = hmac_sha512 E (chaincode self) data;
                 left_node = take 32 full_node;
                 right_node = drop 32 full_node;
                 left_node_num = from_bytes left_node;
                 key_num = from_bytes (key self);
                 new_key =
                   (if private_key self
                    then to_bytes ((key_num + left_node_num) mod ecc_N E) 32
                    else case ecc_parse E (key self) of
                           None \<Rightarrow> Inl EccError
                         | Some key_point \<Rightarrow>
                             let left_point = ecc_rmul_G E left_node_num;
                                 total = ecc_add E key_point left_point
                             in case ecc_sec E total of
                                  None \<Rightarrow> Inl EccError
                                | Some s \<Rightarrow> Inr s)
             in case new_key of
                  Inl e \<Rightarrow> Inl e
                | Inr k \<Rightarrow>
                    let d = (if root self then 1 else depth self + 1)
                    in Xkey_init k right_node (private_key self) False d index_num
                         (Some pubkey))"

text \<open>The \<open>for\<close> loop of \<open>derive_path\<close>, with the loop variable \<open>seed\<close>.\<close>

fun derive_path :: "'pt ext \<Rightarrow> xkey \<Rightarrow> (int \<times> bool) list \<Rightarrow> xkey result" where
  "derive_path E seed [] = Inr seed"
| "derive_path E seed (item # path) =
     (let (i, hardened) = item;
          i' = (if hardened then i + 2 ^ 31 else i)
      in case derive_child_seed E seed i' of
           Inl e \<Rightarrow> Inl e
         | Inr seed' \<Rightarrow> derive_path E seed' path)"

definition derive_pubkey :: "'pt ext \<Rightarrow> xkey \<Rightarrow> xkey result" where
  "derive_pubkey E self =
     (if \<not> private_key self then Inl AssertionError
      else case get_pubkey_sec E (key self) of
             Inl e \<Rightarrow> Inl e
           | Inr pub \<Rightarrow>
               Xkey_init pub (chaincode self) False (root self) (depth self) (index self)
                 (parent_pubkey self))"

text \<open>
  \<open>serialize\<close> builds the byte string \<open>result\<close> and hands it to
  \<open>encode_base58_checksum\<close>; \<open>serialize_payload\<close> is that byte string.
  \<open>bytes([depth])\<close> raises \<open>ValueError\<close> outside \<open>range(0, 256)\<close>.
\<close>

definition serialize_payload :: "'pt ext \<Rightarrow> xkey \<Rightarrow> bytes result" where
  "serialize_payload E self =
     (let version = (if private_key self then version_private else version_public);
          position =
            (if root self
             then Inr ([0] @ replicate 4 0 @ replicate 4 0)
             else if depth self < 0 \<or> 256 \<le> depth self
                  then Inl (ValueError ''bytes must be in range(0, 256)'')
                  else case hash160 E (parent_pubkey self) of
                         Inl e \<Rightarrow> Inl e
                       | Inr h \<Rightarrow>
                           (case to_bytes (index self) 4 of
                              Inl e \<Rightarrow> Inl e
                            | Inr ib \<Rightarrow> Inr ([word_of_int (depth self)] @ take 4 h @ ib)))
      in case position of
           Inl e \<Rightarrow> Inl e
         | Inr pos \<Rightarrow>
             Inr (version @ pos @ chaincode self @
                  (if private_key self then [0] @ key self else key self)))"

definition serialize :: "'pt ext \<Rightarrow> xkey \<Rightarrow> string result" where
  "serialize E self =
     (case serialize_payload E self of
        Inl e \<Rightarrow> Inl e
      | Inr result \<Rightarrow> Inr (encode_base58_checksum E result))"

subsection \<open>Well-formed nodes and collaborators\<close>

text \<open>
  The digests have their standard lengths: 32 bytes for SHA-256, 20 for RIPEMD-160.
\<close>

definition hash_lengths_ok :: "'pt ext \<Rightarrow> bool" where
  "hash_lengths_ok E \<longleftrightarrow>
     (\<forall>d. length (hashlib_sha256 E d) = 32) \<and> (\<forall>d. length (hashlib_ripemd160 E d) = 20)"

text \<open>
  The invariants of the data model: a 32-byte chain code; a 32-byte private key or a
  33-byte SEC-compressed public key (leading byte 2 or 3); a root has depth 0, index 0 and
  no parent key; any other node has a depth in 1..255, an unsigned 32-bit index and a
  parent key.
\<close>

definition valid_xkey :: "xkey \<Rightarrow> bool" where
  "valid_xkey x \<longleftrightarrow>
     length (chaincode x) = 32 \<and>
     (if private_key x then length (key x) = 32
      else length (key x) = 33 \<and> (key x ! 0 = 2 \<or> key x ! 0 = 3)) \<and>
     (if root x then depth x = 0 \<and> index x = 0 \<and> parent_pubkey x = None
      else 0 < depth x \<and> depth x < 256 \<and> 0 \<le> index x \<and> index x < 2 ^ 32 \<and>
           parent_pubkey x \<noteq> None)"

text \<open>
  A small instance of the collaborators, on which the hypotheses of the theorems below
  are checked: digests that pad or cut their input to the digest length, and the additive
  group of the integers modulo 101 in the place of the curve, a point \<open>P\<close> encoded as
  the byte 2 followed by 32 big-endian bytes, the neutral element having no encoding.
\<close>

definition demo_sec :: "int \<Rightarrow> bytes option" where
  "demo_sec P = (if 0 < P \<and> P < 101 then Some (2 # be_bytes 32 P) else None)"

definition demo_parse :: "bytes \<Rightarrow> int option" where
  "demo_parse s =
     (case s of
        [] \<Rightarrow> None
      | p # rest \<Rightarrow>
          if p = 2 \<and> length rest = 32 \<and> 0 < from_bytes rest \<and> from_bytes rest < 101
          then Some (from_bytes rest) else None)"

definition demo_ext :: "int ext" where
  "demo_ext =
     \<lparr>hashlib_sha256 = (\<lambda>d. take 32 (d @ replicate 32 0)),
      hashlib_ripemd160 = (\<lambda>d. take 20 (d @ replicate 20 0)),
      hmac_sha512 = (\<lambda>k m. take 64 (k @ m @ replicate 64 0)),
      ecc_N = 101,
      ecc_rmul_G = (\<lambda>a. a mod 101),
      ecc_add = (\<lambda>P Q. (P + Q) mod 101),
      ecc_parse = demo_parse,
      ecc_sec = demo_sec\<rparr>"

definition demo_child_pub :: xkey where
  "demo_child_pub =
     \<lparr>key = 2 # replicate 32 5, chaincode = replicate 32 9, root = False,
      private_key = False, depth = 3, index = 2147483649,
      parent_pubkey = Some (3 # replicate 32 1)\<rparr>"

text \<open>
  What the derivation needs of the curve: the order \<open>N\<close> is positive and fits 32 bytes,
  \<open>coefficient * G\<close> reduces the coefficient modulo \<open>N\<close> and is additive, and
  \<open>S256Point.parse\<close> inverts \<open>sec\<close>.
\<close>

definition curve_ok :: "'pt ext \<Rightarrow> bool" where
  "curve_ok E \<longleftrightarrow>
     0 < ecc_N E \<and> ecc_N E \<le> 2 ^ 256 \<and>
     (\<forall>a. ecc_rmul_G E (a mod ecc_N E) = ecc_rmul_G E a) \<and>
     (\<forall>a b. ecc_add E (ecc_rmul_G E a) (ecc_rmul_G E b) = ecc_rmul_G E (a + b)) \<and>
     (\<forall>P s. ecc_sec E P = Some s \<longrightarrow> ecc_parse E s = Some P)"

definition demo_child_prv :: xkey where
  "demo_child_prv =
     \<lparr>key = be_bytes 32 1, chaincode = be_bytes 32 201, root = False,
      private_key = True, depth = 2, index = 7,
      parent_pubkey = Some (2 # be_bytes 32 44)\<rparr>"

definition demo_root_prv :: xkey where
  "demo_root_prv =
     \<lparr>key = be_bytes 32 5, chaincode = be_bytes 32 9, root = True,
      private_key = True, depth = 0, index = 0, parent_pubkey = None\<rparr>"

text \<open>
  The node that \<open>derive_child_seed\<close> returns for \<open>demo_child_prv\<close> at index 7: its
  scalar is zero.
\<close>

definition demo_zero_prv :: xkey where
  "demo_zero_prv =
     \<lparr>key = replicate 32 0, chaincode = 2 # replicate 31 0, root = False,
      private_key = True, depth = 3, index = 7,
      parent_pubkey = Some (2 # be_bytes 32 1)\<rparr>"

text \<open>
  Root detection as \<open>parse_from_bip32\<close> applies it to the 78-byte payload: a zero depth
  byte, a zero fingerprint and a zero index.
\<close>

definition payload_is_root :: "bytes \<Rightarrow> bool" where
  "payload_is_root payload \<longleftrightarrow>
     (case take 1 (drop 4 payload) of [] \<Rightarrow> False | depth_byte # _ \<Rightarrow> uint depth_byte = 0) \<and>
     take 4 (drop 5 payload) = replicate 4 0 \<and>
     from_bytes (take 4 (drop 9 payload)) = 0"

text \<open>
  The path derivation as the specification words it: a left fold of the child derivation
  over the steps, \<open>2^31\<close> added to the index of a hardened step, an error ending the
  derivation.
\<close>

definition derive_path_spec :: "'pt ext \<Rightarrow> xkey \<Rightarrow> (int \<times> bool) list \<Rightarrow> xkey result" where
  "derive_path_spec E r steps =
     foldl (\<lambda>acc (i, hardened).
              bind_result acc (\<lambda>node. derive_child_seed E node (if hardened then i + 2 ^ 31 else i)))
       (Inr r) steps"

text \<open>
  Two keys of \<open>bip32_test.py\<close>, \<open>ROOT_XPRV\<close> and \<open>DERIVATION_PATH_XPRV[0]\<close>, with
  their 78-byte payloads, and \<open>ROOT_XPRV\<close> with its last character changed, which
  changes the last checksum byte only. \<open>sha256_vectors\<close> agrees with SHA-256 on the four
  byte strings that parsing the two keys hashes, the payloads and their digests, and
  pads or cuts every other input to 32 bytes.
\<close>

definition ROOT_XPRV :: string where
  "ROOT_XPRV =
     ''xprv9s21ZrQH143K3eWTAaVhmX3pjg5dy3qQvj5yMk63Gtnt52kunpXjB2JK3NC55eYgHKuCbp93qUPjo5iHVvdEZAWxUo5PvaH8vCxBBT5aTiN''"

definition DERIVATION_PATH_XPRV_0 :: string where
  "DERIVATION_PATH_XPRV_0 =
     ''xprv9zjDV8f2hhxzR73YLoA7e6sFEDwLN8XpnMEVRwwTVyG2W2hBvUMBVcvu1fEE8W7NtN7hoMdC9BohNGjYakn5UUwsq3ppuZWjArsSi1Fw7Ak''"

definition ROOT_XPRV_bad_checksum :: string where
  "ROOT_XPRV_bad_checksum = butlast ROOT_XPRV @ ''M''"

definition ROOT_XPRV_payload :: bytes where
  "ROOT_XPRV_payload =
     [4, 136, 173, 228, 0, 0, 0, 0, 0, 0, 0, 0, 0, 159, 149, 90, 53, 241, 34, 216, 187, 178,
      18, 194, 8, 181, 240, 55, 19, 239, 139, 179, 16, 234, 74, 176, 106, 193, 69, 191, 26,
      196, 194, 104, 104, 0, 11, 115, 133, 16, 128, 123, 206, 131, 7, 208, 27, 253, 47, 119,
      134, 50, 130, 66, 161, 215, 210, 242, 3, 18, 174, 63, 80, 218, 113, 69, 215, 235]"

definition DERIVATION_PATH_XPRV_0_payload :: bytes where
  "DERIVATION_PATH_XPRV_0_payload =
     [4, 136, 173, 228, 4, 25, 3, 119, 207, 128, 0, 0, 1, 114, 95, 145, 52, 218, 217, 63,
      109, 64, 59, 89, 233, 168, 69, 7, 179, 102, 13, 70, 239, 20, 114, 188, 14, 248, 163,
      157, 117, 254, 3, 228, 73, 0, 245, 218, 66, 174, 55, 80, 174, 153, 146, 102, 170, 227,
      78, 164, 104, 98, 74, 81, 249, 113, 161, 95, 193, 84, 40, 77, 210, 22, 136, 187, 123,
      123]"

definition sha256_vectors :: "bytes \<Rightarrow> bytes" where
  "sha256_vectors d =
     (if d = ROOT_XPRV_payload then
        [146, 35, 118, 169, 128, 248, 70, 187, 214, 239, 219, 161, 245, 188, 31, 1, 68, 43,
         86, 225, 178, 158, 105, 211, 9, 67, 48, 175, 18, 90, 97, 182]
      else if d =
        [146, 35, 118, 169, 128, 248, 70, 187, 214, 239, 219, 161, 245, 188, 31, 1, 68, 43,
         86, 225, 178, 158, 105, 211, 9, 67, 48, 175, 18, 90, 97, 182] then
        [113, 107, 173, 47, 219, 129, 249, 197, 255, 162, 64, 133, 162, 127, 21, 7, 197, 22,
         112, 28, 184, 1, 155, 97, 211, 221, 35, 64, 230, 253, 102, 143]
      else if d = DERIVATION_PATH_XPRV_0_payload then
        [147, 73, 50, 231, 64, 205, 172, 153, 80, 147, 1, 245, 243, 208, 125, 218, 113, 125,
         117, 37, 35, 112, 34, 104, 70, 144, 212, 26, 38, 68, 98, 152]
      else if d =
        [147, 73, 50, 231, 64, 205, 172, 153, 80, 147, 1, 245, 243, 208, 125, 218, 113, 125,
         117, 37, 35, 112, 34, 104, 70, 144, 212, 26, 38, 68, 98, 152] then
        [41, 45, 195, 29, 207, 120, 38, 177, 113, 65, 163, 220, 90, 229, 61, 197, 56, 199,
         172, 114, 237, 209, 255, 98, 105, 195, 101, 56, 48, 38, 39, 143]
      else take 32 (d @ replicate 32 0))"

definition vector_ext :: "int ext" where
  "vector_ext = demo_ext\<lparr>hashlib_sha256 := sha256_vectors\<rparr>"

definition ROOT_XPRV_node :: xkey where
  "ROOT_XPRV_node =
     \<lparr>key = drop 46 ROOT_XPRV_payload, chaincode = take 32 (drop 13 ROOT_XPRV_payload),
      root = True, private_key = True, depth = 0, index = 0, parent_pubkey = None\<rparr>"

definition demo_root_odd :: xkey where
  "demo_root_odd = ROOT_XPRV_node\<lparr>depth := 5, index := 6, parent_pubkey := Some [2]\<rparr>"

section \<open>Integers and bytes\<close>

lemma from_bytes_snoc: "from_bytes (bs @ [b]) = from_bytes bs * 256 + uint b"
  by (simp add: from_bytes_def)

lemma from_bytes_nonneg: "0 \<le> from_bytes bs"
  by (induction bs rule: rev_induct) (simp_all add: from_bytes_def)

lemma from_bytes_bound: "from_bytes bs < 256 ^ length bs"
proof (induction bs rule: rev_induct)
  case Nil
  show ?case by (simp add: from_bytes_def)
next
  case (snoc b bs)
  have "uint b < 256" using uint_bounded [of b] by simp
  with snoc show ?case by (simp add: from_bytes_snoc)
qed

lemma length_be_bytes: "length (be_bytes n x) = n"
  by (induction n arbitrary: x) simp_all

lemma be_bytes_from_bytes: "be_bytes (length bs) (from_bytes bs) = bs"
proof (induction bs rule: rev_induct)
  case Nil
  show ?case by simp
next
  case (snoc b bs)
  have b: "0 \<le> uint b" "uint b < 256" using uint_bounded [of b] by simp_all
  then have d: "(from_bytes bs * 256 + uint b) div 256 = from_bytes bs"
    by simp
  from b have m: "uint b mod 256 = uint b"
    by simp
  show ?case using snoc by (simp add: from_bytes_snoc d m)
qed

lemma from_bytes_be_bytes:
  "0 \<le> x \<Longrightarrow> x < 256 ^ n \<Longrightarrow> from_bytes (be_bytes n x) = x"
proof (induction n arbitrary: x)
  case 0
  then show ?case by (simp add: from_bytes_def)
next
  case (Suc n)
  have "x div 256 < 256 ^ n" using Suc.prems by (simp add: div_less_iff_less_mult)
  moreover have "0 \<le> x div 256" using Suc.prems by simp
  ultimately have "from_bytes (be_bytes n (x div 256)) = x div 256" by (rule Suc.IH[rotated])
  moreover have "uint (word_of_int (x mod 256) :: byte) = x mod 256"
    by (simp add: uint_word_of_int take_bit_eq_mod)
  ultimately show ?case by (simp add: from_bytes_snoc)
qed

lemma to_bytes_from_bytes: "to_bytes (from_bytes bs) (length bs) = Inr bs"
  using from_bytes_nonneg [of bs] from_bytes_bound [of bs]
  by (simp add: to_bytes_def be_bytes_from_bytes)

lemma str_index_nth:
  "distinct xs \<Longrightarrow> k < length xs \<Longrightarrow> str_index xs (xs ! k) = Inr k"
proof (induction xs arbitrary: k)
  case Nil
  then show ?case by simp
next
  case (Cons x xs)
  show ?case
  proof (cases k)
    case 0
    then show ?thesis by simp
  next
    case (Suc j)
    with Cons.prems have "xs ! j \<in> set xs" "x \<notin> set xs" by simp_all
    then have "x \<noteq> xs ! j" by auto
    with Cons Suc show ?thesis by simp
  qed
qed

lemma distinct_alphabet: "distinct BASE58_ALPHABET"
  by (simp add: BASE58_ALPHABET_def)

lemma length_alphabet: "length BASE58_ALPHABET = 58"
  by (simp add: BASE58_ALPHABET_def)

section \<open>Base58\<close>

lemma decode_base58_loop_append:
  "decode_base58_loop a (xs @ ys) =
     (case decode_base58_loop a xs of Inl e \<Rightarrow> Inl e | Inr a' \<Rightarrow> decode_base58_loop a' ys)"
  by (induction xs arbitrary: a) (simp_all split: sum.splits)

lemma encode_base58_loop_acc:
  "encode_base58_loop n r = encode_base58_loop n [] @ r"
proof (induction "nat n" arbitrary: n r rule: less_induct)
  case less
  show ?case
  proof (cases "n > 0")
    case True
    let ?c = "BASE58_ALPHABET ! nat (n mod 58)"
    have smaller: "nat (n div 58) < nat n"
      using True by simp
    have "encode_base58_loop n r = encode_base58_loop (n div 58) (?c # r)"
      using True by (subst encode_base58_loop.simps) simp
    also have "\<dots> = encode_base58_loop (n div 58) [] @ (?c # r)"
      by (rule less.hyps [OF smaller])
    also have "\<dots> = (encode_base58_loop (n div 58) [] @ [?c]) @ r"
      by simp
    also have "encode_base58_loop (n div 58) [] @ [?c] = encode_base58_loop (n div 58) [?c]"
      by (rule less.hyps [OF smaller, symmetric])
    also have "\<dots> = encode_base58_loop n []"
      using True by (subst (2) encode_base58_loop.simps) simp
    finally show ?thesis .
  next
    case False
    then show ?thesis by (simp add: encode_base58_loop.simps)
  qed
qed

lemma str_index_alphabet:
  "0 \<le> m \<Longrightarrow> m < 58 \<Longrightarrow> str_index BASE58_ALPHABET (BASE58_ALPHABET ! nat m) = Inr (nat m)"
  by (rule str_index_nth [OF distinct_alphabet]) (simp add: length_alphabet)

lemma decode_encode_base58_loop:
  "0 \<le> n \<Longrightarrow> decode_base58_loop 0 (encode_base58_loop n []) = Inr n"
proof (induction "nat n" arbitrary: n rule: less_induct)
  case less
  show ?case
  proof (cases "n > 0")
    case True
    let ?c = "BASE58_ALPHABET ! nat (n mod 58)"
    have smaller: "nat (n div 58) < nat n" "0 \<le> n div 58"
      using True by simp_all
    have ih: "decode_base58_loop 0 (encode_base58_loop (n div 58) []) = Inr (n div 58)"
      using less.hyps [OF smaller] .
    have enc: "encode_base58_loop n [] = encode_base58_loop (n div 58) [] @ [?c]"
      using True encode_base58_loop_acc [of "n div 58" "[?c]"]
      by (subst encode_base58_loop.simps) simp
    have idx: "str_index BASE58_ALPHABET ?c = Inr (nat (n mod 58))"
      by (rule str_index_alphabet) simp_all
    show ?thesis
      by (simp add: enc decode_base58_loop_append ih idx)
  next
    case False
    with less.prems have "n = 0" by simp
    then show ?thesis by (simp add: encode_base58_loop.simps)
  qed
qed

lemma decode_base58_loop_ones:
  "decode_base58_loop 0 (replicate c CHR ''1'' @ rest) = decode_base58_loop 0 rest"
proof (induction c)
  case 0
  show ?case by simp
next
  case (Suc c)
  have "str_index BASE58_ALPHABET CHR ''1'' = Inr 0"
    by (simp add: BASE58_ALPHABET_def)
  with Suc show ?case by simp
qed

lemma decode_encode_base58:
  "length data = 82 \<Longrightarrow> decode_base58 (encode_base58 data) = Inr data"
  using to_bytes_from_bytes [of data]
  by (simp add: decode_base58_def encode_base58_def decode_base58_loop_ones
      decode_encode_base58_loop from_bytes_nonneg)

section \<open>The wire codec\<close>

text \<open>
  \<open>parse_from_bip32\<close> on a decoded key cut into its fields: version, depth byte,
  fingerprint, index, chain code, key field and checksum.
\<close>

lemma parse_from_bip32_decoded:
  assumes dec: "decode_base58 s = Inr (v @ [d] @ fp @ ib @ c @ kf @ cs)"
    and len: "length v = 4" "length fp = 4" "length ib = 4" "length c = 32"
      "length kf = 33" "length cs = 4"
  shows "parse_from_bip32 E s pp =
     (if cs \<noteq> take 4 (hash256 E (v @ [d] @ fp @ ib @ c @ kf))
      then Inl (ValueError ''Checksum mismatch!'')
      else if v \<noteq> version_private \<and> v \<noteq> version_public
      then Inl (ValueError ''Unsupported BIP32 Key Format'')
      else
        case (if uint d = 0 \<and> fp = replicate 4 0 \<and> from_bytes ib = 0 then Inr True
              else case hash160 E pp of Inl e \<Rightarrow> Inl e
                   | Inr h \<Rightarrow> if take 4 h \<noteq> fp then Inl (ValueError ''Fingerprint mismatch!'')
                              else Inr False) of
          Inl e \<Rightarrow> Inl e
        | Inr r \<Rightarrow> Xkey_init (if hd kf = 0 then tl kf else kf) c (v = version_private) r
                    (uint d) (from_bytes ib) pp)"
proof -
  obtain k0 ks where kf: "kf = k0 # ks" using len(5) by (cases kf) auto
  have pv: "version_private \<noteq> version_public"
    by (simp add: version_private_def version_public_def)
  show ?thesis
    using len pv
    by (auto simp add: parse_from_bip32_def dec stream_read_def kf Let_def
        split: sum.splits)
qed

lemma parse_from_bip32_payload:
  assumes dec: "decode_base58 s = Inr (v @ [d] @ fp @ ib @ c @ kf @ cs)"
    and len: "length v = 4" "length fp = 4" "length ib = 4" "length c = 32"
      "length kf = 33" "length cs = 4"
    and cs: "cs = take 4 (hash256 E (v @ [d] @ fp @ ib @ c @ kf))"
    and v: "v = version_private \<or> v = version_public"
  shows "parse_from_bip32 E s pp =
     (case (if uint d = 0 \<and> fp = replicate 4 0 \<and> from_bytes ib = 0 then Inr True
            else case hash160 E pp of Inl e \<Rightarrow> Inl e
                 | Inr h \<Rightarrow> if take 4 h \<noteq> fp then Inl (ValueError ''Fingerprint mismatch!'')
                            else Inr False) of
        Inl e \<Rightarrow> Inl e
      | Inr r \<Rightarrow> Xkey_init (if hd kf = 0 then tl kf else kf) c (v = version_private) r
                  (uint d) (from_bytes ib) pp)"
proof -
  from v have known: "\<not> (v \<noteq> version_private \<and> v \<noteq> version_public)"
    by blast
  show ?thesis
    by (simp only: parse_from_bip32_decoded [OF dec len] cs [symmetric] known
        not_not refl if_False not_True_eq_False)
qed

lemma length_versions: "length version_private = 4" "length version_public = 4"
  by (simp_all add: version_private_def version_public_def)

lemma length_hash256: "hash_lengths_ok E \<Longrightarrow> length (hash256 E d) = 32"
  by (simp add: hash256_def hash_lengths_ok_def)

lemma to_bytes_ok: "0 \<le> n \<Longrightarrow> n < 256 ^ len \<Longrightarrow> to_bytes n len = Inr (be_bytes len n)"
  by (simp add: to_bytes_def)

lemma roundtrip_root:
  assumes ok: "hash_lengths_ok E" and val: "valid_xkey x" and r: "root x"
  shows "bind_result (serialize E x) (\<lambda>s. parse_from_bip32 E s (parent_pubkey x)) = Inr x"
proof -
  let ?v = "if private_key x then version_private else version_public"
  let ?kf = "if private_key x then [0] @ key x else key x"
  let ?p = "?v @ [0] @ replicate 4 0 @ replicate 4 0 @ chaincode x @ ?kf"
  let ?cs = "take 4 (hash256 E ?p)"
  have pay: "serialize_payload E x = Inr ?p"
    using r by (simp add: serialize_payload_def)
  have ser: "serialize E x = Inr (encode_base58 (?p @ ?cs))"
    by (simp add: serialize_def pay encode_base58_checksum_def)
  have lkf: "length ?kf = 33" and lc: "length (chaincode x) = 32"
    using val by (auto simp: valid_xkey_def split: if_splits)
  have lcs: "length ?cs = 4" using length_hash256 [OF ok] by simp
  have lv: "length ?v = 4" by (simp add: length_versions)
  have "length (?p @ ?cs) = 82" using lkf lc lcs lv by simp
  then have dec: "decode_base58 (encode_base58 (?p @ ?cs)) = Inr (?p @ ?cs)"
    by (rule decode_encode_base58)
  then have dec': "decode_base58 (encode_base58 (?p @ ?cs)) =
      Inr (?v @ [0] @ replicate 4 0 @ replicate 4 0 @ chaincode x @ ?kf @ ?cs)"
    by simp
  have fb0: "from_bytes (replicate 4 0) = 0"
    by (simp add: from_bytes_def numeral_eq_Suc)
  have pv: "version_private \<noteq> version_public"
    by (simp add: version_private_def version_public_def)
  have kfix: "(if hd ?kf = 0 then tl ?kf else ?kf) = key x"
    using val by (cases "key x") (auto simp: valid_xkey_def split: if_splits)
  have parse: "parse_from_bip32 E (encode_base58 (?p @ ?cs)) (parent_pubkey x) =
      Xkey_init (key x) (chaincode x) (private_key x) True 0 0 (parent_pubkey x)"
    by (subst parse_from_bip32_payload [OF dec' lv _ _ lc lkf lcs])
       (simp_all add: fb0 kfix pv pv [symmetric])
  have "bind_result (serialize E x) (\<lambda>s. parse_from_bip32 E s (parent_pubkey x)) =
      parse_from_bip32 E (encode_base58 (?p @ ?cs)) (parent_pubkey x)"
    by (simp only: ser bind_result_def sum.case)
  also note parse
  also have "Xkey_init (key x) (chaincode x) (private_key x) True 0 0 (parent_pubkey x) = Inr x"
    using r val by (simp add: Xkey_init_def valid_xkey_def)
  finally show ?thesis .
qed

lemma roundtrip_child:
  assumes ok: "hash_lengths_ok E" and val: "valid_xkey x" and r: "\<not> root x"
  shows "bind_result (serialize E x) (\<lambda>s. parse_from_bip32 E s (parent_pubkey x)) = Inr x"
proof -
  from val r obtain pk where pk: "parent_pubkey x = Some pk"
    by (auto simp: valid_xkey_def)
  from val r have d: "0 < depth x" "depth x < 256" and i: "0 \<le> index x" "index x < 2 ^ 32"
    by (simp_all add: valid_xkey_def)
  let ?h = "hashlib_ripemd160 E (hashlib_sha256 E pk)"
  have h: "hash160 E (parent_pubkey x) = Inr ?h" by (simp add: hash160_def pk)
  have lh: "length ?h = 20" using ok by (simp add: hash_lengths_ok_def)
  let ?ib = "be_bytes 4 (index x)"
  have ib: "to_bytes (index x) 4 = Inr ?ib" using i by (simp add: to_bytes_ok)
  let ?d = "word_of_int (depth x) :: byte"
  let ?v = "if private_key x then version_private else version_public"
  let ?kf = "if private_key x then [0] @ key x else key x"
  let ?p = "?v @ [?d] @ take 4 ?h @ ?ib @ chaincode x @ ?kf"
  let ?cs = "take 4 (hash256 E ?p)"
  have pay: "serialize_payload E x = Inr ?p"
    using r d by (simp add: serialize_payload_def h ib)
  have ser: "serialize E x = Inr (encode_base58 (?p @ ?cs))"
    by (simp add: serialize_def pay encode_base58_checksum_def)
  have lkf: "length ?kf = 33" and lc: "length (chaincode x) = 32"
    using val by (auto simp: valid_xkey_def split: if_splits)
  have lcs: "length ?cs = 4" using length_hash256 [OF ok] by simp
  have lv: "length ?v = 4" by (simp add: length_versions)
  have lfp: "length (take 4 ?h) = 4" using lh by simp
  have lib: "length ?ib = 4" by (simp add: length_be_bytes)
  have "length (?p @ ?cs) = 82" using lkf lc lcs lv lfp lib by simp
  then have dec: "decode_base58 (encode_base58 (?p @ ?cs)) = Inr (?p @ ?cs)"
    by (rule decode_encode_base58)
  then have dec': "decode_base58 (encode_base58 (?p @ ?cs)) =
      Inr (?v @ [?d] @ take 4 ?h @ ?ib @ chaincode x @ ?kf @ ?cs)"
    by simp
  have ud: "uint ?d = depth x"
    using d by (simp add: uint_word_of_int take_bit_eq_mod)
  have fbi: "from_bytes ?ib = index x"
    using i by (simp add: from_bytes_be_bytes)
  have pv: "version_private \<noteq> version_public"
    by (simp add: version_private_def version_public_def)
  have kfix: "(if hd ?kf = 0 then tl ?kf else ?kf) = key x"
    using val by (cases "key x") (auto simp: valid_xkey_def split: if_splits)
  have parse: "parse_from_bip32 E (encode_base58 (?p @ ?cs)) (parent_pubkey x) =
      Xkey_init (key x) (chaincode x) (private_key x) False (depth x) (index x) (parent_pubkey x)"
    using d
    by (subst parse_from_bip32_payload [OF dec' lv lfp lib lc lkf lcs])
       (simp_all add: ud fbi kfix pv pv [symmetric] h)
  have "bind_result (serialize E x) (\<lambda>s. parse_from_bip32 E s (parent_pubkey x)) =
      parse_from_bip32 E (encode_base58 (?p @ ?cs)) (parent_pubkey x)"
    by (simp only: ser bind_result_def sum.case)
  also note parse
  also have "Xkey_init (key x) (chaincode x) (private_key x) False (depth x) (index x)
      (parent_pubkey x) = Inr x"
    using r d pk by (simp add: Xkey_init_def)
  finally show ?thesis .
qed

text \<open>
  Claim C1. For every valid node \<open>x\<close>, root or not, private or public, serializing
  \<open>x\<close> succeeds and parsing the string with \<open>x\<close>'s own parent public key returns a
  node equal to \<open>x\<close> in all seven fields (record equality is the \<open>__eq__\<close> of the
  class).
\<close>

theorem parse_serialize_roundtrip:
  assumes "hash_lengths_ok E" and "valid_xkey x"
  shows "bind_result (serialize E x) (\<lambda>s. parse_from_bip32 E s (parent_pubkey x)) = Inr x"
  using assms roundtrip_root roundtrip_child by (cases "root x") blast+

theorem parse_serialize_roundtrip_witness:
  "hash_lengths_ok demo_ext \<and> valid_xkey demo_child_pub \<and>
   bind_result (serialize demo_ext demo_child_pub)
     (\<lambda>s. parse_from_bip32 demo_ext s (parent_pubkey demo_child_pub)) = Inr demo_child_pub"
proof -
  have h: "hash_lengths_ok demo_ext"
    by (auto simp add: hash_lengths_ok_def demo_ext_def)
  have v: "valid_xkey demo_child_pub"
    by (simp add: valid_xkey_def demo_child_pub_def)
  from parse_serialize_roundtrip [OF h v] h v show ?thesis by simp
qed

section \<open>Child derivation\<close>

text \<open>
  Claim C3. On a public node, an index of \<open>2^31\<close> or more makes \<open>derive_child_seed\<close>
  raise \<open>ValueError("Cannot use hardened index!")\<close>, so no node is returned; with a
  smaller index the derivation never raises that error.
\<close>

theorem derive_child_public_hardened:
  "\<not> private_key p \<Longrightarrow>
     (2 ^ 31 \<le> i \<longrightarrow>
        derive_child_seed E p i = Inl (ValueError ''Cannot use hardened index!'')) \<and>
     (i < 2 ^ 31 \<longrightarrow>
        derive_child_seed E p i \<noteq> Inl (ValueError ''Cannot use hardened index!''))"
  by (auto simp add: derive_child_seed_def to_bytes_def Xkey_init_def Let_def
      split: if_splits sum.splits option.splits)

theorem derive_child_public_hardened_witness:
  "\<not> private_key demo_child_pub \<and>
   derive_child_seed demo_ext demo_child_pub 2147483648 =
     Inl (ValueError ''Cannot use hardened index!'') \<and>
   derive_child_seed demo_ext demo_child_pub 2147483647 \<noteq>
     Inl (ValueError ''Cannot use hardened index!'')"
proof -
  have h: "\<not> private_key demo_child_pub" by (simp add: demo_child_pub_def)
  from derive_child_public_hardened [OF h, of 2147483648 demo_ext]
    derive_child_public_hardened [OF h, of 2147483647 demo_ext] h
  show ?thesis by simp
qed

lemma derive_child_seed_private:
  assumes priv: "private_key p"
    and N: "0 < ecc_N E" "ecc_N E \<le> 2 ^ 256"
    and pub: "get_pubkey_sec E (key p) = Inr pub"
    and i: "0 \<le> i" "i < 2 ^ 32"
    and d: "root p \<or> depth p \<noteq> - 1"
  shows "derive_child_seed E p i =
     (let data = (if 2 ^ 31 \<le> i then [0] @ key p @ be_bytes 4 i else pub @ be_bytes 4 i);
          full_node = hmac_sha512 E (chaincode p) data;
          left_int = from_bytes (take 32 full_node);
          right = drop 32 full_node
      in Inr \<lparr>key = be_bytes 32 ((from_bytes (key p) + left_int) mod ecc_N E),
               chaincode = right, root = False, private_key = True,
               depth = (if root p then 1 else depth p + 1), index = i,
               parent_pubkey = Some pub\<rparr>)"
proof -
  have ib: "to_bytes i 4 = Inr (be_bytes 4 i)" using i by (simp add: to_bytes_ok)
  have tot: "to_bytes (t mod ecc_N E) 32 = Inr (be_bytes 32 (t mod ecc_N E))" for t
  proof (rule to_bytes_ok)
    show "0 \<le> t mod ecc_N E" using N by simp
    have "t mod ecc_N E < ecc_N E" using N by simp
    also note N(2)
    also have "(2::int) ^ 256 = 256 ^ 32" by simp
    finally show "t mod ecc_N E < 256 ^ 32" .
  qed
  show ?thesis
    using priv d by (auto simp add: derive_child_seed_def pub ib tot Xkey_init_def Let_def)
qed

text \<open>
  Claim C4, as the code has it. On a private parent \<open>derive_child_seed\<close> first
  computes the parent's public key, at a hardened index too, and fails with the error of
  \<open>get_pubkey_sec\<close> when that fails. Otherwise it fails with \<open>OverflowError\<close> for an
  index outside 0..2^32-1 and with \<open>AssertionError\<close> when the child's depth would be
  zero, and in every other case it returns the node whose key is the 32-byte big-endian
  encoding of \<open>(parent scalar + left) mod N\<close> and whose chain code is \<open>right\<close>, where
  \<open>left\<close> and \<open>right\<close> are bytes 0..32 and 32.. of the HMAC-SHA512 keyed by the parent's
  chain code. Nothing is asked of the sum or of \<open>left\<close>: a zero child scalar and a
  \<open>left\<close> of \<open>N\<close> or more are treated like any other value.
\<close>

theorem derive_child_private:
  assumes priv: "private_key p"
    and N: "0 < ecc_N E" "ecc_N E \<le> 2 ^ 256"
  shows "derive_child_seed E p i =
     (case get_pubkey_sec E (key p) of
        Inl e \<Rightarrow> Inl e
      | Inr pub \<Rightarrow>
          if i < 0 \<or> 2 ^ 32 \<le> i then Inl OverflowError
          else if \<not> root p \<and> depth p = - 1 then Inl AssertionError
          else
            let data = (if 2 ^ 31 \<le> i then [0] @ key p @ be_bytes 4 i
                        else pub @ be_bytes 4 i);
                full_node = hmac_sha512 E (chaincode p) data;
                left_int = from_bytes (take 32 full_node);
                right = drop 32 full_node
            in Inr \<lparr>key = be_bytes 32 ((from_bytes (key p) + left_int) mod ecc_N E),
                     chaincode = right, root = False, private_key = True,
                     depth = (if root p then 1 else depth p + 1), index = i,
                     parent_pubkey = Some pub\<rparr>)"
proof (cases "get_pubkey_sec E (key p)")
  case (Inl e)
  then show ?thesis using priv by (simp add: derive_child_seed_def)
next
  case (Inr pub)
  have tot: "to_bytes (t mod ecc_N E) 32 = Inr (be_bytes 32 (t mod ecc_N E))" for t
  proof (rule to_bytes_ok)
    show "0 \<le> t mod ecc_N E" using N by simp
    have "t mod ecc_N E < ecc_N E" using N by simp
    also note N(2)
    also have "(2::int) ^ 256 = 256 ^ 32" by simp
    finally show "t mod ecc_N E < 256 ^ 32" .
  qed
  consider (range) "i < 0 \<or> 2 ^ 32 \<le> i"
    | (depth) "0 \<le> i" "i < 2 ^ 32" "\<not> root p" "depth p = - 1"
    | (ok) "0 \<le> i" "i < 2 ^ 32" "root p \<or> depth p \<noteq> - 1"
    by linarith
  then show ?thesis
  proof cases
    case range
    then have "to_bytes i 4 = Inl OverflowError" by (auto simp add: to_bytes_def)
    then show ?thesis using priv range by (simp add: derive_child_seed_def Inr)
  next
    case depth
    have ib: "to_bytes i 4 = Inr (be_bytes 4 i)" using depth by (simp add: to_bytes_ok)
    show ?thesis
      using priv depth
      by (simp add: derive_child_seed_def Inr ib tot Xkey_init_def Let_def)
  next
    case ok
    have a: "(i < 0 \<or> 2 ^ 32 \<le> i) = False" and b: "(\<not> root p \<and> depth p = - 1) = False"
      using ok by auto
    show ?thesis
      by (simp only: Inr sum.case a b if_False derive_child_seed_private [OF priv N Inr ok])
  qed
qed

text \<open>
  At this input \<open>left = 201\<close> exceeds the order 101 and the child scalar
  \<open>(1 + 201) mod 101\<close> is zero; the node is returned all the same.
\<close>

theorem derive_child_private_witness:
  "private_key demo_child_prv \<and> 0 < ecc_N demo_ext \<and> ecc_N demo_ext \<le> 2 ^ 256 \<and>
   derive_child_seed demo_ext demo_child_prv 7 = Inr demo_zero_prv"
proof -
  have h1: "private_key demo_child_prv" by (simp add: demo_child_prv_def)
  have h2: "0 < ecc_N demo_ext" and h3: "ecc_N demo_ext \<le> 2 ^ 256"
    by (simp_all add: demo_ext_def)
  note derive_child_private [OF h1 h2 h3, of 7]
  also have "(case get_pubkey_sec demo_ext (key demo_child_prv) of
        Inl e \<Rightarrow> Inl e
      | Inr pub \<Rightarrow>
          if (7::int) < 0 \<or> 2 ^ 32 \<le> (7::int) then Inl OverflowError
          else if \<not> root demo_child_prv \<and> depth demo_child_prv = - 1 then Inl AssertionError
          else
            let data = (if 2 ^ 31 \<le> (7::int) then [0] @ key demo_child_prv @ be_bytes 4 7
                        else pub @ be_bytes 4 7);
                full_node = hmac_sha512 demo_ext (chaincode demo_child_prv) data;
                left_int = from_bytes (take 32 full_node);
                right = drop 32 full_node
            in Inr \<lparr>key = be_bytes 32 ((from_bytes (key demo_child_prv) + left_int) mod ecc_N demo_ext),
                     chaincode = right, root = False, private_key = True,
                     depth = (if root demo_child_prv then 1 else depth demo_child_prv + 1), index = 7,
                     parent_pubkey = Some pub\<rparr>) = Inr demo_zero_prv"
    by code_simp
  finally show ?thesis using h1 h2 h3 by simp
qed

text \<open>
  That zero-scalar node is a private node satisfying the invariants of the data model,
  and as a parent it has no child at any index, hardened or not: its public key is
  computed first and has no encoding.
\<close>

theorem derive_child_private_zero_parent_counterexample:
  "derive_child_seed demo_ext demo_child_prv 7 = Inr demo_zero_prv \<and>
   private_key demo_zero_prv \<and> valid_xkey demo_zero_prv \<and>
   derive_child_seed demo_ext demo_zero_prv 0 = Inl EccError \<and>
   derive_child_seed demo_ext demo_zero_prv 2147483648 = Inl EccError"
  by code_simp

lemma curve_ok_demo: "curve_ok demo_ext"
proof -
  have inv: "demo_parse s = Some P" if "demo_sec P = Some s" for P s
  proof -
    from that have P: "0 < P" "P < 101" and s: "s = 2 # be_bytes 32 P"
      by (auto simp: demo_sec_def split: if_splits)
    have "P < 256 ^ 32" using P by simp
    then have "from_bytes (be_bytes 32 P) = P" using P by (simp add: from_bytes_be_bytes)
    then show ?thesis using P by (simp add: demo_parse_def s length_be_bytes)
  qed
  show ?thesis
    by (auto simp add: curve_ok_def demo_ext_def inv mod_simps)
qed

lemma get_pubkey_sec_be_bytes:
  assumes "curve_ok E"
  shows "get_pubkey_sec E (be_bytes 32 (t mod ecc_N E)) =
     (case ecc_sec E (ecc_rmul_G E t) of None \<Rightarrow> Inl EccError | Some s \<Rightarrow> Inr s)"
proof -
  from assms have N: "0 < ecc_N E" "ecc_N E \<le> 2 ^ 256"
    and red: "ecc_rmul_G E (t mod ecc_N E) = ecc_rmul_G E t"
    by (simp_all add: curve_ok_def)
  have "t mod ecc_N E < ecc_N E" using N by simp
  also note N(2)
  also have "(2::int) ^ 256 = 256 ^ 32" by simp
  finally have "t mod ecc_N E < 256 ^ 32" .
  moreover have "0 \<le> t mod ecc_N E" using N by simp
  ultimately have "from_bytes (be_bytes 32 (t mod ecc_N E)) = t mod ecc_N E"
    by (simp add: from_bytes_be_bytes)
  then show ?thesis by (simp add: get_pubkey_sec_def red)
qed

lemma derive_pubkey_constructed:
  assumes "private_key p" and "root p \<or> (depth p \<noteq> 0 \<and> parent_pubkey p \<noteq> None)"
    and "get_pubkey_sec E (key p) = Inr pub"
  shows "derive_pubkey E p = Inr (p\<lparr>key := pub, private_key := False\<rparr>)"
  using assms by (auto simp add: derive_pubkey_def Xkey_init_def)

lemma derive_child_public:
  assumes pubk: "\<not> private_key q"
    and i: "0 \<le> i" "i < 2 ^ 31"
    and pt: "ecc_parse E (key q) = Some P"
    and d: "root q \<or> depth q \<noteq> - 1"
  shows "derive_child_seed E q i =
     (let full_node = hmac_sha512 E (chaincode q) (key q @ be_bytes 4 i)
      in case ecc_sec E (ecc_add E P (ecc_rmul_G E (from_bytes (take 32 full_node)))) of
           None \<Rightarrow> Inl EccError
         | Some s \<Rightarrow>
             Inr \<lparr>key = s, chaincode = drop 32 full_node, root = False, private_key = False,
                  depth = (if root q then 1 else depth q + 1), index = i,
                  parent_pubkey = Some (key q)\<rparr>)"
proof -
  have ib: "to_bytes i 4 = Inr (be_bytes 4 i)" using i by (simp add: to_bytes_ok)
  show ?thesis
    using pubk i d
    by (auto simp add: derive_child_seed_def ib pt Xkey_init_def Let_def split: option.splits)
qed

text \<open>
  Claim C2. For a private node \<open>p\<close> (as \<open>__init__\<close> builds it, with an unsigned depth)
  and an index below \<open>2^31\<close>, deriving the child and projecting it to public gives the
  same result as projecting \<open>p\<close> and deriving the child of the projection: the same
  node, equal in every field, or the same error.
\<close>

theorem derive_pubkey_commutes:
  assumes ok: "curve_ok E" and priv: "private_key p"
    and wf: "root p \<or> (0 < depth p \<and> parent_pubkey p \<noteq> None)"
    and i: "i < 2 ^ 31"
  shows "bind_result (derive_child_seed E p i) (derive_pubkey E) =
         bind_result (derive_pubkey E p) (\<lambda>q. derive_child_seed E q i)"
proof (cases "get_pubkey_sec E (key p)")
  case (Inl e)
  then show ?thesis
    using priv by (simp add: bind_result_def derive_child_seed_def derive_pubkey_def)
next
  case (Inr pub)
  from wf have wf': "root p \<or> (depth p \<noteq> 0 \<and> parent_pubkey p \<noteq> None)" by auto
  let ?q = "p\<lparr>key := pub, private_key := False\<rparr>"
  have q: "derive_pubkey E p = Inr ?q"
    using priv wf' Inr by (rule derive_pubkey_constructed)
  show ?thesis
  proof (cases "0 \<le> i")
    case False
    then have "to_bytes i 4 = Inl OverflowError" by (simp add: to_bytes_def)
    then show ?thesis
      using priv i
      by (simp add: bind_result_def q derive_child_seed_def Inr)
  next
    case True
    from ok have N: "0 < ecc_N E" "ecc_N E \<le> 2 ^ 256"
      and hom: "\<And>a b. ecc_add E (ecc_rmul_G E a) (ecc_rmul_G E b) = ecc_rmul_G E (a + b)"
      and inv: "\<And>P s. ecc_sec E P = Some s \<Longrightarrow> ecc_parse E s = Some P"
      by (simp_all add: curve_ok_def)
    from True i have i32: "i < 2 ^ 32" by simp
    from wf have d: "root p \<or> depth p \<noteq> - 1" by auto
    let ?h = "hmac_sha512 E (chaincode p) (pub @ be_bytes 4 i)"
    let ?L = "from_bytes (take 32 ?h)"
    let ?k = "from_bytes (key p)"
    let ?dep = "if root p then 1 else depth p + 1"
    let ?c = "\<lparr>key = be_bytes 32 ((?k + ?L) mod ecc_N E), chaincode = drop 32 ?h,
               root = False, private_key = True, depth = ?dep, index = i,
               parent_pubkey = Some pub\<rparr>"
    have lhs1: "derive_child_seed E p i = Inr ?c"
      using derive_child_seed_private [OF priv N Inr True i32 d] i by (simp add: Let_def)
    have sec_pub: "ecc_sec E (ecc_rmul_G E ?k) = Some pub"
      using Inr by (simp add: get_pubkey_sec_def split: option.splits)
    have pt: "ecc_parse E (key ?q) = Some (ecc_rmul_G E ?k)"
      using inv [OF sec_pub] by simp
    have dq: "root ?q \<or> depth ?q \<noteq> - 1" using d by simp
    have rhs1: "derive_child_seed E ?q i =
        (case ecc_sec E (ecc_rmul_G E (?k + ?L)) of
           None \<Rightarrow> Inl EccError
         | Some s \<Rightarrow> Inr \<lparr>key = s, chaincode = drop 32 ?h, root = False, private_key = False,
                  depth = ?dep, index = i, parent_pubkey = Some pub\<rparr>)"
      using derive_child_public [OF _ True i pt dq]
      by (simp add: Let_def hom split: option.splits)
    have lhs2: "derive_pubkey E ?c =
        (case ecc_sec E (ecc_rmul_G E (?k + ?L)) of
           None \<Rightarrow> Inl EccError
         | Some s \<Rightarrow> Inr \<lparr>key = s, chaincode = drop 32 ?h, root = False, private_key = False,
                  depth = ?dep, index = i, parent_pubkey = Some pub\<rparr>)"
      using wf
      by (auto simp add: derive_pubkey_def get_pubkey_sec_be_bytes [OF ok] Xkey_init_def
          split: option.splits)
    show ?thesis
      by (simp only: bind_result_def lhs1 q sum.case lhs2 rhs1)
  qed
qed

theorem derive_pubkey_commutes_witness:
  "curve_ok demo_ext \<and> private_key demo_root_prv \<and>
   (root demo_root_prv \<or> (0 < depth demo_root_prv \<and> parent_pubkey demo_root_prv \<noteq> None)) \<and>
   (3::int) < 2 ^ 31 \<and>
   bind_result (derive_pubkey demo_ext demo_root_prv) (\<lambda>q. derive_child_seed demo_ext q 3) =
     Inr \<lparr>key = 2 # be_bytes 32 14, chaincode = 2 # replicate 31 0, root = False,
          private_key = False, depth = 1, index = 3,
          parent_pubkey = Some (2 # be_bytes 32 5)\<rparr>"
proof -
  have h1: "curve_ok demo_ext" by (rule curve_ok_demo)
  have h2: "private_key demo_root_prv" by (simp add: demo_root_prv_def)
  have h3: "root demo_root_prv \<or> (0 < depth demo_root_prv \<and> parent_pubkey demo_root_prv \<noteq> None)"
    by (simp add: demo_root_prv_def)
  have h4: "(3::int) < 2 ^ 31" by simp
  note derive_pubkey_commutes [OF h1 h2 h3 h4, symmetric]
  also have "bind_result (derive_child_seed demo_ext demo_root_prv 3) (derive_pubkey demo_ext) =
     Inr \<lparr>key = 2 # be_bytes 32 14, chaincode = 2 # replicate 31 0, root = False,
          private_key = False, depth = 1, index = 3,
          parent_pubkey = Some (2 # be_bytes 32 5)\<rparr>"
    by code_simp
  finally show ?thesis using h1 h2 h3 by simp
qed

section \<open>The constructor\<close>

text \<open>
  Claim C5, as the code has it. \<open>__init__\<close> fails with \<open>AssertionError\<close>, and returns
  no node, exactly when the node is not a root and either its depth is zero or its parent
  public key is absent. Every other construction succeeds and stores the seven arguments;
  in particular a root is accepted with any depth.
\<close>

theorem Xkey_init_assertions:
  "(\<not> r \<and> (d = 0 \<or> pp = None) \<longrightarrow> Xkey_init k c priv r d i pp = Inl AssertionError) \<and>
   (r \<or> (d \<noteq> 0 \<and> pp \<noteq> None) \<longrightarrow>
      Xkey_init k c priv r d i pp =
        Inr \<lparr>key = k, chaincode = c, root = r, private_key = priv, depth = d, index = i,
             parent_pubkey = pp\<rparr>)"
  by (auto simp add: Xkey_init_def)

theorem Xkey_init_assertions_witness:
  "Xkey_init (replicate 32 7) (replicate 32 9) True False 1 0 None = Inl AssertionError \<and>
   Xkey_init (replicate 32 7) (replicate 32 9) True False 0 0 (Some [3]) = Inl AssertionError \<and>
   Xkey_init (replicate 32 7) (replicate 32 9) True False 1 0 (Some [3]) =
     Inr \<lparr>key = replicate 32 7, chaincode = replicate 32 9, root = False,
          private_key = True, depth = 1, index = 0, parent_pubkey = Some [3]\<rparr>"
  using Xkey_init_assertions [of False 1 None "replicate 32 7" "replicate 32 9" True 0]
    Xkey_init_assertions [of False 0 "Some [3]" "replicate 32 7" "replicate 32 9" True 0]
    Xkey_init_assertions [of False 1 "Some [3]" "replicate 32 7" "replicate 32 9" True 0]
  by simp

text \<open>A root with depth 5 is constructed: the assertions are skipped for a root.\<close>

theorem Xkey_init_root_depth_counterexample:
  "Xkey_init (replicate 32 7) (replicate 32 9) True True 5 0 None =
     Inr \<lparr>key = replicate 32 7, chaincode = replicate 32 9, root = True,
          private_key = True, depth = 5, index = 0, parent_pubkey = None\<rparr>"
  by (simp add: Xkey_init_def)

section \<open>Parsing\<close>

lemma decode_base58_length: "decode_base58 s = Inr d \<Longrightarrow> length d = 82"
  by (auto simp add: decode_base58_def to_bytes_def length_be_bytes split: sum.splits if_splits)

text \<open>
  Claim C7. \<open>parse_from_bip32\<close> decodes first: an error of \<open>decode_base58\<close> is the
  error of the parse. A decoded key has 82 bytes, and when its last 4 bytes differ from
  the first 4 bytes of the double SHA-256 of the first 78, the parse fails with
  \<open>ValueError("Checksum mismatch!")\<close>, whatever the version, depth, fingerprint, index
  and key bytes are and whatever parent key is passed.
\<close>

theorem parse_checksum_first:
  "(decode_base58 s = Inl e \<longrightarrow> parse_from_bip32 E s pp = Inl e) \<and>
   (decode_base58 s = Inr d \<longrightarrow>
      length d = 82 \<and>
      (drop 78 d \<noteq> take 4 (hash256 E (take 78 d)) \<longrightarrow>
         parse_from_bip32 E s pp = Inl (ValueError ''Checksum mismatch!'')))"
proof (intro conjI impI)
  assume "decode_base58 s = Inl e"
  then show "parse_from_bip32 E s pp = Inl e" by (simp add: parse_from_bip32_def)
next
  assume d: "decode_base58 s = Inr d"
  then show "length d = 82" by (rule decode_base58_length)
next
  assume d: "decode_base58 s = Inr d"
    and c: "drop 78 d \<noteq> take 4 (hash256 E (take 78 d))"
  have "length d = 82" using d by (rule decode_base58_length)
  then show "parse_from_bip32 E s pp = Inl (ValueError ''Checksum mismatch!'')"
    using c by (simp add: parse_from_bip32_def d Let_def)
qed

theorem parse_checksum_first_witness:
  "decode_base58 ''0'' = Inl (ValueError ''substring not found'') \<and>
   parse_from_bip32 vector_ext ''0'' None = Inl (ValueError ''substring not found'') \<and>
   decode_base58 ROOT_XPRV_bad_checksum = Inr (ROOT_XPRV_payload @ [113, 107, 173, 46]) \<and>
   drop 78 (ROOT_XPRV_payload @ [113, 107, 173, 46]) \<noteq>
     take 4 (hash256 vector_ext (take 78 (ROOT_XPRV_payload @ [113, 107, 173, 46]))) \<and>
   parse_from_bip32 vector_ext ROOT_XPRV_bad_checksum None =
     Inl (ValueError ''Checksum mismatch!'')"
proof -
  have h1: "decode_base58 ''0'' = Inl (ValueError ''substring not found'')"
    by code_simp
  have h2: "decode_base58 ROOT_XPRV_bad_checksum =
      Inr (ROOT_XPRV_payload @ [113, 107, 173, 46])"
    by code_simp
  have h3: "drop 78 (ROOT_XPRV_payload @ [113, 107, 173, 46]) \<noteq>
      take 4 (hash256 vector_ext (take 78 (ROOT_XPRV_payload @ [113, 107, 173, 46])))"
    by code_simp
  from parse_checksum_first [where s = "''0''" and e = "ValueError ''substring not found''"
      and E = vector_ext and pp = None]
    parse_checksum_first [where s = ROOT_XPRV_bad_checksum
      and d = "ROOT_XPRV_payload @ [113, 107, 173, 46]" and E = vector_ext and pp = None]
    h1 h2 h3
  show ?thesis by simp
qed

lemma split_at:
  "n \<le> length xs \<Longrightarrow> \<exists>a b. xs = a @ b \<and> length a = n \<and> length b = length xs - n"
  by (rule exI [of _ "take n xs"], rule exI [of _ "drop n xs"]) simp

lemma split_decoded:
  assumes "length (d :: bytes) = 82"
  obtains v dp fp ib c kf cs where
    "d = v @ [dp] @ fp @ ib @ c @ kf @ cs" "length v = 4" "length fp = 4" "length ib = 4"
    "length c = 32" "length kf = 33" "length cs = 4"
proof -
  from split_at [of 4 d] assms obtain v r1 where
    1: "d = v @ r1" "length v = 4" "length r1 = 78" by auto
  from split_at [of 1 r1] 1 obtain dd r2 where
    2: "r1 = dd @ r2" "length dd = 1" "length r2 = 77" by auto
  from 2 obtain dp where dp: "dd = [dp]" by (cases dd) auto
  from split_at [of 4 r2] 2 obtain fp r3 where
    3: "r2 = fp @ r3" "length fp = 4" "length r3 = 73" by auto
  from split_at [of 4 r3] 3 obtain ib r4 where
    4: "r3 = ib @ r4" "length ib = 4" "length r4 = 69" by auto
  from split_at [of 32 r4] 4 obtain c r5 where
    5: "r4 = c @ r5" "length c = 32" "length r5 = 37" by auto
  from split_at [of 33 r5] 5 obtain kf cs where
    6: "r5 = kf @ cs" "length kf = 33" "length cs = 4" by auto
  show thesis
    by (rule that [of v dp fp ib c kf cs]) (simp_all add: 1 2 dp 3 4 5 6)
qed

lemma payload_is_root_parts:
  assumes "length v = 4" "length fp = 4" "length ib = 4"
  shows "payload_is_root (take 78 (v @ [d] @ fp @ ib @ rest)) \<longleftrightarrow>
     uint d = 0 \<and> fp = replicate 4 0 \<and> from_bytes ib = 0"
  using assms by (simp add: payload_is_root_def)

text \<open>
  Claim C6, as the code has it. When the payload is detected as root, the parent public
  key passed by the caller is not hashed or compared: whether the parse succeeds, its
  error, and every field of the node but one do not depend on it, and the node is a root
  with depth 0 and index 0. The argument is not dropped, though: it is stored as the
  node's \<open>parent_pubkey\<close>, so the node returned is the one returned for an absent
  parent key with that field replaced.
\<close>

theorem parse_root_parent_argument:
  assumes d: "decode_base58 s = Inr d" and r: "payload_is_root (take 78 d)"
  shows "parse_from_bip32 E s pp =
           (case parse_from_bip32 E s None of
              Inl e \<Rightarrow> Inl e
            | Inr x \<Rightarrow> Inr (x\<lparr>parent_pubkey := pp\<rparr>)) \<and>
         (\<forall>x. parse_from_bip32 E s pp = Inr x \<longrightarrow>
              root x \<and> depth x = 0 \<and> index x = 0 \<and> parent_pubkey x = pp)"
proof -
  have "length d = 82" using d by (rule decode_base58_length)
  then obtain v dp fp ib c kf cs where
    parts: "d = v @ [dp] @ fp @ ib @ c @ kf @ cs" and
    len: "length v = 4" "length fp = 4" "length ib = 4" "length c = 32" "length kf = 33"
      "length cs = 4"
    by (rule split_decoded)
  have dec: "decode_base58 s = Inr (v @ [dp] @ fp @ ib @ c @ kf @ cs)"
    using d parts by simp
  have rt: "uint dp = 0 \<and> fp = replicate 4 0 \<and> from_bytes ib = 0"
    using r payload_is_root_parts [OF len(1-3), of dp "c @ kf @ cs"] by (simp add: parts)
  have eq: "parse_from_bip32 E s a =
     (if cs \<noteq> take 4 (hash256 E (v @ [dp] @ fp @ ib @ c @ kf))
      then Inl (ValueError ''Checksum mismatch!'')
      else if v \<noteq> version_private \<and> v \<noteq> version_public
      then Inl (ValueError ''Unsupported BIP32 Key Format'')
      else Inr \<lparr>key = (if hd kf = 0 then tl kf else kf), chaincode = c, root = True,
                private_key = (v = version_private), depth = 0, index = 0,
                parent_pubkey = a\<rparr>)" for a
    using rt by (simp add: parse_from_bip32_decoded [OF dec len] Xkey_init_def)
  show ?thesis
    by (simp add: eq [of pp] eq [of None])
qed

theorem parse_root_parent_argument_witness:
  "decode_base58 ROOT_XPRV = Inr (ROOT_XPRV_payload @ [113, 107, 173, 47]) \<and>
   payload_is_root (take 78 (ROOT_XPRV_payload @ [113, 107, 173, 47])) \<and>
   parse_from_bip32 vector_ext ROOT_XPRV (Some [2]) =
     (case parse_from_bip32 vector_ext ROOT_XPRV None of
        Inl e \<Rightarrow> Inl e
      | Inr x \<Rightarrow> Inr (x\<lparr>parent_pubkey := Some [2]\<rparr>))"
proof -
  have h1: "decode_base58 ROOT_XPRV = Inr (ROOT_XPRV_payload @ [113, 107, 173, 47])"
    by code_simp
  have h2: "payload_is_root (take 78 (ROOT_XPRV_payload @ [113, 107, 173, 47]))"
    by code_simp
  from parse_root_parent_argument [OF h1 h2, of vector_ext "Some [2]"] h1 h2
  show ?thesis by simp
qed

text \<open>
  The root key of the tests parsed without a parent key and with the parent key
  \<open>b"\x02"\<close>: both parses succeed and return different nodes.
\<close>

theorem parse_root_parent_argument_counterexample:
  "parse_from_bip32 vector_ext ROOT_XPRV None = Inr ROOT_XPRV_node \<and>
   parse_from_bip32 vector_ext ROOT_XPRV (Some [2]) =
     Inr (ROOT_XPRV_node\<lparr>parent_pubkey := Some [2]\<rparr>) \<and>
   parse_from_bip32 vector_ext ROOT_XPRV (Some [2]) \<noteq>
     parse_from_bip32 vector_ext ROOT_XPRV None"
proof -
  have a: "parse_from_bip32 vector_ext ROOT_XPRV None = Inr ROOT_XPRV_node"
    by code_simp
  have b: "parse_from_bip32 vector_ext ROOT_XPRV (Some [2]) =
     Inr (ROOT_XPRV_node\<lparr>parent_pubkey := Some [2]\<rparr>)"
    by code_simp
  have c: "ROOT_XPRV_node\<lparr>parent_pubkey := Some [2]\<rparr> \<noteq> ROOT_XPRV_node"
    by (simp add: ROOT_XPRV_node_def)
  show ?thesis using a b c by simp
qed

text \<open>
  Claim C9. When the payload is not detected as root and no parent public key is passed,
  the parse returns no node: it fails with the checksum error, else with the version
  error, else with the \<open>TypeError\<close> that \<open>hash160(None)\<close> raises. None of the three is
  \<open>ValueError("Fingerprint mismatch!")\<close>.
\<close>

theorem parse_child_without_parent:
  assumes d: "decode_base58 s = Inr d" and r: "\<not> payload_is_root (take 78 d)"
  shows "parse_from_bip32 E s None =
     (if drop 78 d \<noteq> take 4 (hash256 E (take 78 d))
      then Inl (ValueError ''Checksum mismatch!'')
      else if take 4 d \<noteq> version_private \<and> take 4 d \<noteq> version_public
      then Inl (ValueError ''Unsupported BIP32 Key Format'')
      else Inl TypeError)"
proof -
  have "length d = 82" using d by (rule decode_base58_length)
  then obtain v dp fp ib c kf cs where
    parts: "d = v @ [dp] @ fp @ ib @ c @ kf @ cs" and
    len: "length v = 4" "length fp = 4" "length ib = 4" "length c = 32" "length kf = 33"
      "length cs = 4"
    by (rule split_decoded)
  have dec: "decode_base58 s = Inr (v @ [dp] @ fp @ ib @ c @ kf @ cs)"
    using d parts by simp
  have rt: "\<not> (uint dp = 0 \<and> fp = replicate 4 0 \<and> from_bytes ib = 0)"
    using r payload_is_root_parts [OF len(1-3), of dp "c @ kf @ cs"] by (simp add: parts)
  have t: "take 4 d = v" "drop 78 d = cs" "take 78 d = v @ [dp] @ fp @ ib @ c @ kf"
    using len by (simp_all add: parts)
  show ?thesis
    using rt by (auto simp add: parse_from_bip32_decoded [OF dec len] t hash160_def)
qed

theorem parse_child_without_parent_witness:
  "decode_base58 DERIVATION_PATH_XPRV_0 =
     Inr (DERIVATION_PATH_XPRV_0_payload @ [41, 45, 195, 29]) \<and>
   \<not> payload_is_root (take 78 (DERIVATION_PATH_XPRV_0_payload @ [41, 45, 195, 29])) \<and>
   parse_from_bip32 vector_ext DERIVATION_PATH_XPRV_0 None = Inl TypeError"
proof -
  let ?d = "DERIVATION_PATH_XPRV_0_payload @ [41, 45, 195, 29]"
  have h1: "decode_base58 DERIVATION_PATH_XPRV_0 = Inr ?d"
    by code_simp
  have h2: "\<not> payload_is_root (take 78 ?d)"
    by code_simp
  note parse_child_without_parent [OF h1 h2, of vector_ext]
  also have "(if drop 78 ?d \<noteq> take 4 (hash256 vector_ext (take 78 ?d))
      then Inl (ValueError ''Checksum mismatch!'')
      else if take 4 ?d \<noteq> version_private \<and> take 4 ?d \<noteq> version_public
      then Inl (ValueError ''Unsupported BIP32 Key Format'')
      else Inl TypeError) = (Inl TypeError :: xkey result)"
    by code_simp
  finally show ?thesis using h1 h2 by simp
qed

section \<open>Serializing\<close>

lemma bind_result_simps:
  "bind_result (Inl e) f = Inl e" "bind_result (Inr v) f = f v"
  by (simp_all add: bind_result_def)

lemma serialize_payload_root:
  "root x \<Longrightarrow> serialize_payload E x =
     Inr ((if private_key x then version_private else version_public) @ replicate 9 0 @
          chaincode x @ (if private_key x then 0 # key x else key x))"
  by (simp add: serialize_payload_def numeral_eq_Suc)

text \<open>
  Claim C10. For a root, \<open>serialize\<close> emits the Base58Check encoding of the version,
  nine zero bytes (depth, fingerprint, index), the chain code and the key field, whatever
  the node stores as depth, index and parent key, so the string does not change with
  these fields. For any other node it emits, in that place, the stored depth as one byte,
  the first 4 bytes of \<open>hash160\<close> of the stored parent key and the stored index as 4
  big-endian bytes, or fails when one of the three cannot be written.
\<close>

theorem serialize_root_position_bytes:
  "(root x \<longrightarrow>
      serialize E x =
        Inr (encode_base58_checksum E
               ((if private_key x then version_private else version_public) @
                replicate 9 0 @ chaincode x @
                (if private_key x then 0 # key x else key x))) \<and>
      serialize E (x\<lparr>depth := d, index := i, parent_pubkey := pp\<rparr>) = serialize E x) \<and>
   (\<not> root x \<longrightarrow>
      serialize E x =
        (if depth x < 0 \<or> 256 \<le> depth x
         then Inl (ValueError ''bytes must be in range(0, 256)'')
         else case hash160 E (parent_pubkey x) of
                Inl e \<Rightarrow> Inl e
              | Inr h \<Rightarrow>
                  (case to_bytes (index x) 4 of
                     Inl e \<Rightarrow> Inl e
                   | Inr ib \<Rightarrow>
                       Inr (encode_base58_checksum E
                              ((if private_key x then version_private else version_public) @
                               [word_of_int (depth x)] @ take 4 h @ ib @ chaincode x @
                               (if private_key x then 0 # key x else key x))))))"
proof (intro conjI impI)
  assume "root x"
  then show "serialize E x =
        Inr (encode_base58_checksum E
               ((if private_key x then version_private else version_public) @
                replicate 9 0 @ chaincode x @
                (if private_key x then 0 # key x else key x)))"
    by (simp add: serialize_def serialize_payload_root)
next
  assume "root x"
  then have "serialize_payload E (x\<lparr>depth := d, index := i, parent_pubkey := pp\<rparr>) =
      serialize_payload E x"
    by (simp add: serialize_payload_root)
  then show "serialize E (x\<lparr>depth := d, index := i, parent_pubkey := pp\<rparr>) = serialize E x"
    by (simp add: serialize_def)
next
  assume "\<not> root x"
  then show "serialize E x =
        (if depth x < 0 \<or> 256 \<le> depth x
         then Inl (ValueError ''bytes must be in range(0, 256)'')
         else case hash160 E (parent_pubkey x) of
                Inl e \<Rightarrow> Inl e
              | Inr h \<Rightarrow>
                  (case to_bytes (index x) 4 of
                     Inl e \<Rightarrow> Inl e
                   | Inr ib \<Rightarrow>
                       Inr (encode_base58_checksum E
                              ((if private_key x then version_private else version_public) @
                               [word_of_int (depth x)] @ take 4 h @ ib @ chaincode x @
                               (if private_key x then 0 # key x else key x)))))"
    by (simp add: serialize_def serialize_payload_def split: sum.splits)
qed

theorem serialize_root_position_bytes_witness:
  "root demo_root_odd \<and> \<not> root demo_child_pub \<and>
   serialize vector_ext demo_root_odd =
     Inr (encode_base58_checksum vector_ext ROOT_XPRV_payload) \<and>
   take 9 (drop 4 ROOT_XPRV_payload) = replicate 9 0 \<and>
   bind_result (serialize vector_ext demo_root_odd) decode_base58 = decode_base58 ROOT_XPRV \<and>
   serialize demo_ext demo_child_pub =
     Inr (encode_base58_checksum demo_ext
            (version_public @ [3] @ [3, 1, 1, 1] @ [128, 0, 0, 1] @ replicate 32 9 @
             2 # replicate 32 5))"
proof -
  have h1: "root demo_root_odd" by (simp add: demo_root_odd_def ROOT_XPRV_node_def)
  have h2: "\<not> root demo_child_pub" by (simp add: demo_child_pub_def)
  have p: "(if private_key demo_root_odd then version_private else version_public) @
      replicate 9 0 @ chaincode demo_root_odd @
      (if private_key demo_root_odd then 0 # key demo_root_odd else key demo_root_odd) =
      ROOT_XPRV_payload"
    by code_simp
  have z: "take 9 (drop 4 ROOT_XPRV_payload) = replicate 9 0" by code_simp
  from serialize_root_position_bytes [where x = demo_root_odd and E = vector_ext] h1
  have a: "serialize vector_ext demo_root_odd =
      Inr (encode_base58_checksum vector_ext ROOT_XPRV_payload)"
    by (simp only: p simp_thms)
  have cs: "take 4 (hash256 vector_ext ROOT_XPRV_payload) = [113, 107, 173, 47]"
    by code_simp
  have len: "length (ROOT_XPRV_payload @ [113, 107, 173, 47]) = 82"
    by (simp add: ROOT_XPRV_payload_def)
  have dec: "decode_base58 ROOT_XPRV = Inr (ROOT_XPRV_payload @ [113, 107, 173, 47])"
    by code_simp
  have b: "bind_result (serialize vector_ext demo_root_odd) decode_base58 =
      decode_base58 ROOT_XPRV"
    by (simp only: a bind_result_simps encode_base58_checksum_def cs
        decode_encode_base58 [OF len] dec)
  have q: "(if depth demo_child_pub < 0 \<or> 256 \<le> depth demo_child_pub
         then Inl (ValueError ''bytes must be in range(0, 256)'')
         else case hash160 demo_ext (parent_pubkey demo_child_pub) of
                Inl e \<Rightarrow> Inl e
              | Inr h \<Rightarrow>
                  (case to_bytes (index demo_child_pub) 4 of
                     Inl e \<Rightarrow> Inl e
                   | Inr ib \<Rightarrow>
                       Inr ((if private_key demo_child_pub then version_private else version_public) @
                               [word_of_int (depth demo_child_pub)] @ take 4 h @ ib @ chaincode demo_child_pub @
                               (if private_key demo_child_pub then 0 # key demo_child_pub else key demo_child_pub)))) =
       (Inr (version_public @ [3] @ [3, 1, 1, 1] @ [128, 0, 0, 1] @ replicate 32 9 @
             2 # replicate 32 5) :: bytes result)"
    by code_simp
  from serialize_root_position_bytes [where x = demo_child_pub and E = demo_ext] h2
  have c: "serialize demo_ext demo_child_pub =
     Inr (encode_base58_checksum demo_ext
            (version_public @ [3] @ [3, 1, 1, 1] @ [128, 0, 0, 1] @ replicate 32 9 @
             2 # replicate 32 5))"
    using q by (auto split: if_splits sum.splits)
  from h1 h2 a z b c show ?thesis by simp
qed

section \<open>Path derivation\<close>

lemma derive_path_Cons:
  "derive_path E node ((i, hardened) # steps) =
     bind_result (derive_child_seed E node (if hardened then i + 2 ^ 31 else i))
       (\<lambda>node'. derive_path E node' steps)"
  by (simp add: bind_result_def Let_def)

lemma derive_path_foldl:
  "foldl (\<lambda>acc (i, hardened).
            bind_result acc (\<lambda>node. derive_child_seed E node (if hardened then i + 2 ^ 31 else i)))
     acc steps = bind_result acc (\<lambda>node. derive_path E node steps)"
proof (induction steps arbitrary: acc)
  case Nil
  show ?case by (cases acc) (simp_all add: bind_result_simps)
next
  case (Cons item steps)
  obtain i hardened where item: "item = (i, hardened)" by (cases item)
  show ?case
    by (cases acc) (simp_all add: Cons.IH item bind_result_simps derive_path_Cons
        del: derive_path.simps)
qed

text \<open>
  Claim C8. \<open>derive_path\<close> is the left fold of \<open>derive_child_seed\<close> over the steps,
  with \<open>2^31\<close> added to the index of every hardened step, and on the empty path it
  returns the node it was given.
\<close>

theorem derive_path_is_fold:
  "derive_path E r steps = derive_path_spec E r steps \<and> derive_path E r [] = Inr r"
  by (simp add: derive_path_spec_def derive_path_foldl bind_result_simps)

end
